theory Spec2Isabelle
  imports Complex_Main "HOL-Library.Multiset" "HOL-Library.Log_Nat"
begin

section \<open>Time, days and collections\<close>

text \<open>
  A JavaScript \<open>Date\<close> is a number of milliseconds since the epoch. The calendar of
  \<open>moment\<close> is taken in a fixed zone without daylight saving (UTC), so a day has
  86400000 ms and \<open>startOf('day')\<close> rounds down to a multiple of it. A request reads
  the clock once: the handler's several \<open>moment()\<close> and \<open>new Date()\<close> calls all see
  the same \<open>now\<close>. The counters of a habit are JavaScript numbers that grow by one with a
  request; they stay far below \<open>2^53\<close> and are modelled as \<open>int\<close>.
\<close>

type_synonym time = int

definition DAY_MS :: int where
  "DAY_MS = 86400000"

definition startOf_day :: "time \<Rightarrow> time" where
  "startOf_day t = t - t mod DAY_MS"

definition endOf_day :: "time \<Rightarrow> time" where
  "endOf_day t = startOf_day t + DAY_MS - 1"

definition subtract_days :: "time \<Rightarrow> int \<Rightarrow> time" where
  "subtract_days t n = t - n * DAY_MS"

text \<open>
  A collection is the list of its documents in insertion order. \<open>findOne\<close> gives the
  position of the first document that matches the filter; the position stands for the
  document's \<open>_id\<close>, so \<open>findByIdAndUpdate(doc._id, ...)\<close> and \<open>doc.save()\<close>
  rewrite the document at that position. Requests run one after the other. The unique
  indexes of the schemas are not modelled; no write of the routes below, run in sequence
  on a store whose dates are day starts, duplicates a key.
\<close>

fun findOne :: "('a \<Rightarrow> bool) \<Rightarrow> 'a list \<Rightarrow> nat option" where
  "findOne P [] = None"
| "findOne P (x # xs) = (if P x then Some 0 else map_option Suc (findOne P xs))"

text \<open>
  A string is the list of its code units, each below 256. The schema option \<open>trim: true\<close>
  is \<open>String.prototype.trim\<close>: white space is cut from both ends, which among these code
  units is the blank, tab, line feed, vertical tab, form feed, carriage return and the
  no-break space U+00A0.
\<close>

definition isSpace :: "char \<Rightarrow> bool" where
  "isSpace c = (let n = (of_char c :: nat) in n = 32 \<or> (9 \<le> n \<and> n \<le> 13) \<or> n = 160)"

definition trim :: "string \<Rightarrow> string" where
  "trim s = rev (dropWhile isSpace (rev (dropWhile isSpace s)))"

text \<open>The answers 400, 404 and 500 of the routes.\<close>

datatype error = ValidationError | NotFound | ServerError

section \<open>The values of a request body\<close>

text \<open>
  A field of \<open>req.body\<close> is the JSON value the client sent: a boolean, a number or a
  string. The validators of the routes (\<open>isBoolean()\<close>, \<open>isInt()\<close>) test the string form
  of the value and leave the value as it is: no route calls \<open>toBoolean()\<close> or \<open>toInt()\<close>.
  A number is an integer here; a number with a fraction fails both validators.
\<close>

datatype json = JBool bool | JNum int | JStr string

text \<open>
  A number is a double: an integer of more than 53 bits is rounded to the nearest double,
  a tie to the even mantissa. Overflow to infinity (beyond \<open>2^1024\<close>) is not modelled.
\<close>

definition toDouble :: "int \<Rightarrow> int" where
  "toDouble n =
     (let a = \<bar>n\<bar>
      in if a < 2 ^ 53 then n
         else let m = 2 ^ nat (bitlen a - 53);
                  q = a div m;
                  r = a mod m;
                  q' = (if m < 2 * r \<or> (m = 2 * r \<and> odd q) then q + 1 else q)
              in sgn n * (q' * m))"

text \<open>
  \<open>String(n)\<close> of an integer: its decimal digits, with a minus sign when negative (so for
  \<open>|n| < 10^21\<close>; beyond that JavaScript writes an exponent).
\<close>

function digitsOf :: "nat \<Rightarrow> string" where
  "digitsOf n =
     (if n < 10 then [char_of (48 + n)] else digitsOf (n div 10) @ [char_of (48 + n mod 10)])"
  by pat_completeness auto
termination
  by (relation "measure (\<lambda>n. n)") auto

definition showInt :: "int \<Rightarrow> string" where
  "showInt n = (if n < 0 then CHR ''-'' # digitsOf (nat (- n)) else digitsOf (nat n))"

definition jsString :: "json \<Rightarrow> string" where
  "jsString v =
     (case v of
        JBool b \<Rightarrow> (if b then ''true'' else ''false'')
      | JNum n \<Rightarrow> showInt (toDouble n)
      | JStr s \<Rightarrow> s)"

text \<open>
  \<open>Number(s)\<close> of a string of decimal digits with an optional sign, the only strings the
  routes below convert; any other string counts as not a number.
\<close>

definition isDigit :: "char \<Rightarrow> bool" where
  "isDigit c = (let n = (of_char c :: nat) in 48 \<le> n \<and> n \<le> 57)"

definition digitsOnly :: "string \<Rightarrow> bool" where
  "digitsOnly ds = (ds \<noteq> [] \<and> list_all isDigit ds)"

definition parseNat :: "string \<Rightarrow> nat" where
  "parseNat ds = foldl (\<lambda>acc c. acc * 10 + (of_char c - 48)) 0 ds"

definition castNumber :: "string \<Rightarrow> int option" where
  "castNumber s =
     (case s of
        [] \<Rightarrow> None
      | c # cs \<Rightarrow>
          if c = CHR ''-'' then (if digitsOnly cs then Some (toDouble (- int (parseNat cs))) else None)
          else if c = CHR ''+'' then (if digitsOnly cs then Some (toDouble (int (parseNat cs))) else None)
          else if digitsOnly s then Some (toDouble (int (parseNat s)))
          else None)"

text \<open>
  \<open>isBoolean()\<close> accepts the string forms \<open>true\<close>, \<open>false\<close>, \<open>1\<close> and \<open>0\<close>;
  \<open>isInt({min: 0})\<close> accepts an optional sign and decimal digits whose number is at least
  0 (and so a number below \<open>10^21\<close>).
\<close>

definition isBoolean :: "json \<Rightarrow> bool" where
  "isBoolean v = (jsString v \<in> set [''true'', ''false'', ''1'', ''0''])"

definition isInt_min0 :: "json \<Rightarrow> bool" where
  "isInt_min0 v =
     (case v of
        JBool b \<Rightarrow> False
      | JNum n \<Rightarrow> 0 \<le> toDouble n \<and> toDouble n < 10 ^ 21
      | JStr s \<Rightarrow> (case castNumber s of None \<Rightarrow> False | Some n \<Rightarrow> 0 \<le> n))"

text \<open>The truth value of a value in a JavaScript condition.\<close>

definition truthy :: "json \<Rightarrow> bool" where
  "truthy v = (case v of JBool b \<Rightarrow> b | JNum n \<Rightarrow> n \<noteq> 0 | JStr s \<Rightarrow> s \<noteq> [])"

text \<open>The schema's cast of a value that passed \<open>isBoolean()\<close> to a Boolean field.\<close>

definition castBoolean :: "json \<Rightarrow> bool" where
  "castBoolean v = (case v of JBool b \<Rightarrow> b | JNum n \<Rightarrow> n = 1 | JStr s \<Rightarrow> s = ''true'' \<or> s = ''1'')"

text \<open>The schema's cast of a value to a Number field.\<close>

definition numberOf :: "json \<Rightarrow> int option" where
  "numberOf v =
     (case v of
        JBool b \<Rightarrow> Some (if b then 1 else 0)
      | JNum n \<Rightarrow> Some (toDouble n)
      | JStr s \<Rightarrow> castNumber s)"

text \<open>
  \<open>x += v\<close> on a Number field \<open>x\<close>: a number is added, a string is appended to the digits
  of \<open>x\<close>, and the schema casts the result back to a number. \<open>None\<close> is a failed cast.
\<close>

definition addValue :: "int \<Rightarrow> json \<Rightarrow> int option" where
  "addValue x v =
     (case v of
        JBool b \<Rightarrow> Some (toDouble (x + (if b then 1 else 0)))
      | JNum n \<Rightarrow> Some (toDouble (x + toDouble n))
      | JStr s \<Rightarrow> castNumber (showInt x @ s))"

section \<open>Habits and habit entries (models/Habit, models/HabitEntry.js)\<close>

text \<open>
  The documents carry the fields the routes read or write; the display fields of a habit
  (colour, icon, reminder) and the entry fields no request body of the route sets
  (mood, difficulty, time spent, location) are left out.
\<close>

record habitStats =
  totalCompletions :: int
  currentStreak :: int
  longestStreak :: int
  completionRate :: int
  lastCompleted :: "time option"

record habit =
  h_id :: nat
  h_user :: nat
  h_name :: string
  h_isActive :: bool
  stats :: habitStats

record habitEntry =
  e_habit :: nat
  e_user :: nat
  e_date :: time
  e_completed :: bool
  e_value :: int
  e_notes :: "string option"

text \<open>
  The body of \<open>POST /api/habits/:id/entries\<close>: the three fields the route validates.
  \<open>completed\<close> is the raw value, which line 176 tests; \<open>value\<close> is only stored, and stands
  here as the number the schema casts it to.
\<close>

record entryBody =
  b_completed :: json
  b_value :: "int option"
  b_notes :: "string option"

record db =
  habits :: "habit list"
  entries :: "habitEntry list"

text \<open>routes/habits.js, lines 132-134: the validators of the request body.\<close>

definition validEntryBody :: "entryBody \<Rightarrow> bool" where
  "validEntryBody b =
     (isBoolean (b_completed b) \<and>
      (case b_value b of None \<Rightarrow> True | Some v \<Rightarrow> 0 \<le> v) \<and>
      (case b_notes b of None \<Rightarrow> True | Some n \<Rightarrow> length n \<le> 500))"

text \<open>The filter \<open>{habit, user, date: {$gte: lo, $lt: hi}}\<close>.\<close>

definition entryOn :: "nat \<Rightarrow> nat \<Rightarrow> time \<Rightarrow> time \<Rightarrow> habitEntry \<Rightarrow> bool" where
  "entryOn hid uid lo hi e = (e_habit e = hid \<and> e_user e = uid \<and> lo \<le> e_date e \<and> e_date e < hi)"

text \<open>Line 159: \<open>findByIdAndUpdate(entry._id, req.body)\<close> sets the fields the body has.\<close>

definition updateEntry :: "entryBody \<Rightarrow> habitEntry \<Rightarrow> habitEntry" where
  "updateEntry b e =
     e\<lparr>e_completed := castBoolean (b_completed b),
       e_value := (case b_value b of None \<Rightarrow> e_value e | Some v \<Rightarrow> v),
       e_notes := (case b_notes b of None \<Rightarrow> e_notes e | Some n \<Rightarrow> Some (trim n))\<rparr>"

text \<open>Lines 166-171: a new entry, the schema's defaults under the body's fields.\<close>

definition newEntry :: "entryBody \<Rightarrow> nat \<Rightarrow> nat \<Rightarrow> time \<Rightarrow> habitEntry" where
  "newEntry b hid uid today =
     \<lparr>e_habit = hid, e_user = uid, e_date = today,
      e_completed = castBoolean (b_completed b),
      e_value = (case b_value b of None \<Rightarrow> 0 | Some v \<Rightarrow> v),
      e_notes = map_option trim (b_notes b)\<rparr>"

text \<open>Lines 147-173: find today's entry and update it, or create it.\<close>

definition upsertEntry ::
  "habitEntry list \<Rightarrow> time \<Rightarrow> nat \<Rightarrow> nat \<Rightarrow> entryBody \<Rightarrow> habitEntry list \<times> habitEntry" where
  "upsertEntry es now uid hid body =
     (let today = startOf_day now;
          endOfDay = endOf_day today
      in case findOne (entryOn hid uid today endOfDay) es of
           Some i \<Rightarrow> (let e = updateEntry body (es ! i) in (es[i := e], e))
         | None \<Rightarrow> (let e = newEntry body hid uid today in (es @ [e], e)))"

text \<open>Lines 177-195: the statistics update, run when \<open>req.body.completed\<close> is truthy.\<close>

definition completedOn :: "nat \<Rightarrow> nat \<Rightarrow> time \<Rightarrow> time \<Rightarrow> habitEntry \<Rightarrow> bool" where
  "completedOn hid uid lo hi e = (entryOn hid uid lo hi e \<and> e_completed e)"

definition updateStats :: "habitStats \<Rightarrow> habitEntry list \<Rightarrow> time \<Rightarrow> nat \<Rightarrow> nat \<Rightarrow> habitStats" where
  "updateStats s es now uid hid =
     (let s1 = s\<lparr>totalCompletions := totalCompletions s + 1, lastCompleted := Some now\<rparr>;
          yesterday = startOf_day (subtract_days now 1);
          yesterdayEntry = findOne (completedOn hid uid yesterday (endOf_day yesterday)) es;
          s2 = (case yesterdayEntry of
                  Some i \<Rightarrow> s1\<lparr>currentStreak := currentStreak s1 + 1\<rparr>
                | None \<Rightarrow> s1\<lparr>currentStreak := 1\<rparr>)
      in s2\<lparr>longestStreak := max (longestStreak s2) (currentStreak s2)\<rparr>)"

text \<open>
  Lines 135-211, \<open>router.post('/:id/entries')\<close>. The call \<open>req.user.updateStreak()\<close>
  writes the user document only, which is not part of this state.
\<close>

definition logHabitEntry ::
  "db \<Rightarrow> time \<Rightarrow> nat \<Rightarrow> nat \<Rightarrow> entryBody \<Rightarrow> error + (db \<times> habitEntry)" where
  "logHabitEntry d now uid hid body =
     (if \<not> validEntryBody body then Inl ValidationError
      else case findOne (\<lambda>h. h_id h = hid \<and> h_user h = uid) (habits d) of
             None \<Rightarrow> Inl NotFound
           | Some k \<Rightarrow>
               (let h = habits d ! k;
                    (es, entry) = upsertEntry (entries d) now uid hid body;
                    s = (if truthy (b_completed body) then updateStats (stats h) es now uid hid
                         else stats h)
                in Inr (d\<lparr>habits := (habits d)[k := h\<lparr>stats := s\<rparr>], entries := es\<rparr>, entry)))"

text \<open>The statistics of the habit a request addresses, as a later read finds them.\<close>

definition statsOf :: "db \<Rightarrow> nat \<Rightarrow> nat \<Rightarrow> habitStats option" where
  "statsOf d uid hid =
     map_option (\<lambda>k. stats (habits d ! k)) (findOne (\<lambda>h. h_id h = hid \<and> h_user h = uid) (habits d))"

text \<open>
  Every entry the route creates is dated at the start of its day, and no update of the
  route changes a date: the dates of the stored entries are whole days.
\<close>

definition dayAligned :: "habitEntry \<Rightarrow> bool" where
  "dayAligned e = (e_date e mod DAY_MS = 0)"



section \<open>Goals (the Goal model, routes/goals.js)\<close>

datatype goalStatus = Active | Completed | Paused | Cancelled

datatype goalType = HabitGoal | MilestoneGoal | TargetGoal | ChallengeGoal

record milestone =
  ms_title :: string
  ms_targetValue :: int
  ms_completed :: bool
  ms_completedAt :: "time option"

record progressEntry =
  p_value :: int
  p_notes :: "string option"
  p_date :: time

record goal =
  g_id :: nat
  g_user :: nat
  g_title :: string
  g_type :: goalType
  targetValue :: "int option"
  currentValue :: int
  deadline :: time
  status :: goalStatus
  milestones :: "milestone list"
  progress :: "progressEntry list"

text \<open>The body of \<open>POST /api/goals/:id/progress\<close> and its validators (lines 130-131).\<close>

record progressBody =
  pb_value :: json
  pb_notes :: "string option"

definition validProgressBody :: "progressBody \<Rightarrow> bool" where
  "validProgressBody b =
     (isInt_min0 (pb_value b) \<and>
      (case pb_notes b of None \<Rightarrow> True | Some n \<Rightarrow> length n \<le> 500))"

text \<open>
  \<open>currentValue >= targetValue\<close>: a comparison with an absent (\<open>undefined\<close>) target
  is false.
\<close>

definition reaches :: "int \<Rightarrow> int option \<Rightarrow> bool" where
  "reaches cv tv = (case tv of None \<Rightarrow> False | Some t \<Rightarrow> t \<le> cv)"

text \<open>Lines 162-165: the body of the \<open>forEach\<close> over the milestones.\<close>

definition checkMilestone :: "int \<Rightarrow> time \<Rightarrow> milestone \<Rightarrow> milestone" where
  "checkMilestone cv now m =
     (if \<not> ms_completed m \<and> ms_targetValue m \<le> cv
      then m\<lparr>ms_completed := True, ms_completedAt := Some now\<rparr>
      else m)"

text \<open>Line 161: \<open>goal.milestones.forEach\<close>, front to back.\<close>

fun checkMilestones :: "int \<Rightarrow> time \<Rightarrow> milestone list \<Rightarrow> milestone list" where
  "checkMilestones cv now [] = []"
| "checkMilestones cv now (m # ms) = checkMilestone cv now m # checkMilestones cv now ms"

text \<open>
  Lines 144-167: what the handler does to the goal it found. The pushed value and the new
  \<open>currentValue\<close> pass the schema's cast to a number; a failed cast (\<open>None\<close>) makes the
  later \<open>save()\<close> fail.
\<close>

definition applyProgress :: "goal \<Rightarrow> time \<Rightarrow> progressBody \<Rightarrow> goal option" where
  "applyProgress g now b =
     (case numberOf (pb_value b) of
        None \<Rightarrow> None
      | Some v \<Rightarrow>
          (case addValue (currentValue g) (pb_value b) of
             None \<Rightarrow> None
           | Some cv \<Rightarrow>
               (let g1 = g\<lparr>progress := progress g @
                             [\<lparr>p_value = v, p_notes = map_option trim (pb_notes b), p_date = now\<rparr>]\<rparr>;
                    g2 = g1\<lparr>currentValue := cv\<rparr>;
                    g3 = (if reaches (currentValue g2) (targetValue g2) \<and> status g2 = Active
                          then g2\<lparr>status := Completed\<rparr> else g2)
                in Some (if milestones g3 \<noteq> []
                         then g3\<lparr>milestones := checkMilestones (currentValue g3) now (milestones g3)\<rparr>
                         else g3))))"

text \<open>
  The validation of \<open>goal.save()\<close> (line 169) on the fields the handler can break or find
  broken: \<open>targetValue\<close> is required for a goal of type \<open>target\<close> or \<open>milestone\<close>, and
  \<open>currentValue\<close> has \<open>min: 0\<close>.
\<close>

definition saveValid :: "goal \<Rightarrow> bool" where
  "saveValid g =
     (\<not> ((g_type g = TargetGoal \<or> g_type g = MilestoneGoal) \<and> targetValue g = None) \<and>
      0 \<le> currentValue g)"

text \<open>
  Lines 132-179, \<open>router.post('/:id/progress')\<close>. A \<open>save()\<close> that fails throws, the
  \<open>catch\<close> answers 500 and nothing is written.
\<close>

definition addGoalProgress ::
  "goal list \<Rightarrow> time \<Rightarrow> nat \<Rightarrow> nat \<Rightarrow> progressBody \<Rightarrow> error + (goal list \<times> goal)" where
  "addGoalProgress gs now uid gid body =
     (if \<not> validProgressBody body then Inl ValidationError
      else case findOne (\<lambda>g. g_id g = gid \<and> g_user g = uid) gs of
             None \<Rightarrow> Inl NotFound
           | Some k \<Rightarrow>
               (case applyProgress (gs ! k) now body of
                  None \<Rightarrow> Inl ServerError
                | Some g \<Rightarrow> if saveValid g then Inr (gs[k := g], g) else Inl ServerError))"

text \<open>A sequence of progress requests to one goal, each with the time it arrives at.\<close>

fun addProgressSeq ::
  "goal list \<Rightarrow> nat \<Rightarrow> nat \<Rightarrow> (time \<times> progressBody) list \<Rightarrow> error + goal list" where
  "addProgressSeq gs uid gid [] = Inr gs"
| "addProgressSeq gs uid gid ((now, body) # rs) =
     (case addGoalProgress gs now uid gid body of
        Inl err \<Rightarrow> Inl err
      | Inr (gs', g) \<Rightarrow> addProgressSeq gs' uid gid rs)"

text \<open>The goal as a read after the sequence finds it.\<close>

definition goalAfter :: "goal list \<Rightarrow> nat \<Rightarrow> nat \<Rightarrow> (time \<times> progressBody) list \<Rightarrow> goal option" where
  "goalAfter gs uid gid rs =
     (case addProgressSeq gs uid gid rs of
        Inl err \<Rightarrow> None
      | Inr gs' \<Rightarrow> map_option (\<lambda>k. gs' ! k) (findOne (\<lambda>g. g_id g = gid \<and> g_user g = uid) gs'))"

text \<open>The numbers the bodies of a sequence denote.\<close>

definition deltas :: "(time \<times> progressBody) list \<Rightarrow> int list" where
  "deltas rs = map (\<lambda>r. case numberOf (pb_value (snd r)) of None \<Rightarrow> 0 | Some v \<Rightarrow> v) rs"

text \<open>
  The milestones examined in any order: \<open>order\<close> lists the positions as they are visited,
  and each visit runs the body of the loop on the milestone at that position.
\<close>

definition checkInOrder :: "int \<Rightarrow> time \<Rightarrow> nat list \<Rightarrow> milestone list \<Rightarrow> milestone list" where
  "checkInOrder cv now order ms = foldl (\<lambda>acc i. acc[i := checkMilestone cv now (acc ! i)]) ms order"

subsection \<open>The virtual fields of a goal\<close>

text \<open>
  A JavaScript number is a double. The integers at hand are exact in it; the result of a
  division, or of a product with a fraction, is rounded to a double, and this rounding is
  the parameter \<open>fl\<close> of the definitions below (the identity is exact arithmetic).
  Overflow and \<open>NaN\<close> are not modelled: every division of the source stands under a guard
  that keeps the divisor from zero. \<open>Math.round\<close> rounds to the nearest integer, a tie
  towards plus infinity; \<open>Math.ceil\<close> is the ceiling.
\<close>

definition Math_round :: "rat \<Rightarrow> int" where
  "Math_round x = \<lfloor>x + 1 / 2\<rfloor>"

text \<open>
  The virtual \<open>progressPercentage\<close>: \<open>this.targetValue && this.targetValue > 0\<close> needs a
  target that is present, not zero (truthy) and positive.
\<close>

definition progressPercentage :: "(rat \<Rightarrow> rat) \<Rightarrow> goal \<Rightarrow> int" where
  "progressPercentage fl g =
     (case targetValue g of
        None \<Rightarrow> 0
      | Some t \<Rightarrow>
          if t \<noteq> 0 \<and> 0 < t
          then min (Math_round (fl (fl (of_int (currentValue g) / of_int t) * 100))) 100
          else 0)"


section \<open>Mood entries (the Mood model, routes/moods.js)\<close>











section \<open>Summary statistics\<close>

text \<open>
  routes/habits.js, lines 243-258, and routes/moods.js, lines 150-165: the same switch
  on the query parameter \<open>period\<close>, whose default is \<open>'week'\<close>.
\<close>

definition periodStartDate :: "string option \<Rightarrow> time \<Rightarrow> time" where
  "periodStartDate q now =
     (let period = (case q of None \<Rightarrow> ''week'' | Some p \<Rightarrow> p)
      in if period = ''week'' then startOf_day (subtract_days now 7)
         else if period = ''month'' then startOf_day (subtract_days now 30)
         else if period = ''year'' then startOf_day (subtract_days now 365)
         else startOf_day (subtract_days now 7))"

subsection \<open>Mood statistics (routes/moods.js, lines 167-210)\<close>









subsection \<open>Goal statistics (routes/goals.js, lines 207-239)\<close>





subsection \<open>Habit statistics (routes/habits.js, lines 241-289)\<close>




section \<open>Runs of requests and example data\<close>

text \<open>Habit-entry requests of one user to one habit, one after the other.\<close>

fun logHabitEntries :: "db \<Rightarrow> nat \<Rightarrow> nat \<Rightarrow> (time \<times> entryBody) list \<Rightarrow> error + db" where
  "logHabitEntries d uid hid [] = Inr d"
| "logHabitEntries d uid hid ((now, body) # rs) =
     (case logHabitEntry d now uid hid body of
        Inl err \<Rightarrow> Inl err
      | Inr (d', e) \<Rightarrow> logHabitEntries d' uid hid rs)"

definition statsAfter :: "db \<Rightarrow> nat \<Rightarrow> nat \<Rightarrow> (time \<times> entryBody) list \<Rightarrow> habitStats option" where
  "statsAfter d uid hid rs =
     (case logHabitEntries d uid hid rs of Inl err \<Rightarrow> None | Inr d' \<Rightarrow> statsOf d' uid hid)"

text \<open>
  A habit of user 1 with the schema's default statistics, and the body of the README's
  example request. \<open>jan2\<close> is 2024-01-02 12:00 UTC and \<open>jan3\<close> the same hour of the next day.
\<close>

definition demo_habit :: habit where
  "demo_habit =
     \<lparr>h_id = 1, h_user = 1, h_name = ''Drink Water'', h_isActive = True,
      stats = \<lparr>totalCompletions = 0, currentStreak = 0, longestStreak = 0, completionRate = 0,
               lastCompleted = None\<rparr>\<rparr>"

definition demo_db :: db where
  "demo_db = \<lparr>habits = [demo_habit], entries = []\<rparr>"

definition demo_body :: entryBody where
  "demo_body = \<lparr>b_completed = JBool True, b_value = Some 8, b_notes = Some ''Completed successfully''\<rparr>"


definition jan2 :: time where
  "jan2 = 1704196800000"

definition jan3 :: time where
  "jan3 = 1704283200000"

definition demo_entry :: habitEntry where
  "demo_entry =
     \<lparr>e_habit = 1, e_user = 1, e_date = 1704153600000, e_completed = True, e_value = 8,
      e_notes = Some ''Completed successfully''\<rparr>"

text \<open>The state after the habit was completed once, on 2024-01-02.\<close>

definition demo_db1 :: db where
  "demo_db1 =
     \<lparr>habits = [demo_habit\<lparr>stats :=
        \<lparr>totalCompletions = 1, currentStreak = 1, longestStreak = 1, completionRate = 0,
         lastCompleted = Some 1704196800000\<rparr>\<rparr>],
      entries = [demo_entry]\<rparr>"


text \<open>
  The goal of the specification's scenario: target 12, milestones at 6 and 12, and the
  progress requests 3, 3 and 6.
\<close>

definition demo_goal :: goal where
  "demo_goal =
     \<lparr>g_id = 7, g_user = 1, g_title = ''Read 12 books'', g_type = MilestoneGoal,
      targetValue = Some 12, currentValue = 0,
      deadline = 1735689600000, status = Active,
      milestones =
        [\<lparr>ms_title = ''Half way'', ms_targetValue = 6, ms_completed = False, ms_completedAt = None\<rparr>,
         \<lparr>ms_title = ''All read'', ms_targetValue = 12, ms_completed = False, ms_completedAt = None\<rparr>],
      progress = []\<rparr>"

definition demo_reqs :: "(time \<times> progressBody) list" where
  "demo_reqs =
     [(1704196800000, \<lparr>pb_value = JNum 3, pb_notes = None\<rparr>),
      (1704283200000, \<lparr>pb_value = JNum 3, pb_notes = None\<rparr>),
      (1704369600000, \<lparr>pb_value = JNum 6, pb_notes = Some '' done ''\<rparr>)]"

text \<open>The same three requests with the values sent as strings, and the uncheck request
  with \<open>completed\<close> sent as the string \<open>false\<close>.\<close>

definition demo_string_reqs :: "(time \<times> progressBody) list" where
  "demo_string_reqs =
     [(1704196800000, \<lparr>pb_value = JStr ''3'', pb_notes = None\<rparr>),
      (1704283200000, \<lparr>pb_value = JStr ''3'', pb_notes = None\<rparr>),
      (1704369600000, \<lparr>pb_value = JStr ''6'', pb_notes = None\<rparr>)]"

definition demo_uncheck_string :: entryBody where
  "demo_uncheck_string = \<lparr>b_completed = JStr ''false'', b_value = Some 0, b_notes = None\<rparr>"




section \<open>Facts about \<open>findOne\<close>\<close>

lemma findOne_Some: "findOne P xs = Some i \<Longrightarrow> i < length xs \<and> P (xs ! i)"
proof (induction xs arbitrary: i)
  case Nil
  then show ?case by simp
next
  case (Cons x xs)
  then show ?case by (cases "P x") auto
qed


lemma findOne_update_same:
  "findOne P xs = Some i \<Longrightarrow> P y \<Longrightarrow> findOne P (xs[i := y]) = Some i"
proof (induction xs arbitrary: i)
  case Nil
  then show ?case by simp
next
  case (Cons x xs)
  show ?case
  proof (cases "P x")
    case True
    with Cons.prems show ?thesis by simp
  next
    case False
    with Cons.prems obtain j where j: "findOne P xs = Some j" "i = Suc j"
      by auto
    with Cons.IH [OF j(1) Cons.prems(2)] False show ?thesis by simp
  qed
qed

section \<open>Facts about days and the habit-entry route\<close>



lemma DAY_MS_pos: "0 < DAY_MS"
  by (simp add: DAY_MS_def)

lemma startOf_day_mod: "startOf_day t mod DAY_MS = 0"
  by (simp add: startOf_day_def minus_mod_eq_mult_div)



lemma startOf_day_le: "startOf_day t \<le> t"
  using DAY_MS_pos by (simp add: startOf_day_def)





lemma logHabitEntry_InrD:
  assumes "logHabitEntry d now uid hid body = Inr (d', e)"
  shows "\<exists>k. findOne (\<lambda>h. h_id h = hid \<and> h_user h = uid) (habits d) = Some k \<and>
           validEntryBody body \<and>
           entries d' = fst (upsertEntry (entries d) now uid hid body) \<and>
           e = snd (upsertEntry (entries d) now uid hid body) \<and>
           habits d' = (habits d)[k := (habits d ! k)\<lparr>stats :=
              (if truthy (b_completed body)
               then updateStats (stats (habits d ! k)) (entries d') now uid hid
               else stats (habits d ! k))\<rparr>]"
  using assms
  by (auto simp: logHabitEntry_def Let_def split: if_splits option.splits prod.splits)

lemma logHabitEntry_stats:
  assumes "logHabitEntry d now uid hid body = Inr (d', e)"
  shows "\<exists>s. statsOf d uid hid = Some s \<and>
           statsOf d' uid hid =
             Some (if truthy (b_completed body)
                   then updateStats s (fst (upsertEntry (entries d) now uid hid body)) now uid hid
                   else s)"
proof -
  let ?P = "\<lambda>h. h_id h = hid \<and> h_user h = uid"
  from logHabitEntry_InrD [OF assms] obtain k where
    k: "findOne ?P (habits d) = Some k" and
    es: "entries d' = fst (upsertEntry (entries d) now uid hid body)" and
    hs: "habits d' = (habits d)[k := (habits d ! k)\<lparr>stats :=
              (if truthy (b_completed body)
               then updateStats (stats (habits d ! k)) (entries d') now uid hid
               else stats (habits d ! k))\<rparr>]"
    by blast
  from findOne_Some [OF k] have kl: "k < length (habits d)" and kp: "?P (habits d ! k)"
    by simp_all
  from kp have "findOne ?P (habits d') = Some k"
    unfolding hs by (intro findOne_update_same [OF k]) simp
  with kl have "statsOf d' uid hid =
      Some (if truthy (b_completed body)
            then updateStats (stats (habits d ! k)) (entries d') now uid hid
            else stats (habits d ! k))"
    by (simp add: statsOf_def hs)
  moreover from k have "statsOf d uid hid = Some (stats (habits d ! k))"
    by (simp add: statsOf_def)
  ultimately show ?thesis
    using es by simp
qed

lemma updateStats_longest:
  "currentStreak (updateStats s es now uid hid) \<le> longestStreak (updateStats s es now uid hid)"
  by (simp add: updateStats_def Let_def split: option.splits)


lemma updateStats_totalCompletions:
  "totalCompletions (updateStats s es now uid hid) = totalCompletions s + 1"
  by (simp add: updateStats_def Let_def split: option.splits)



lemma upsertEntry_aligned:
  assumes "list_all dayAligned es"
  shows "list_all dayAligned (fst (upsertEntry es now uid hid body))"
proof (cases "findOne (entryOn hid uid (startOf_day now) (endOf_day (startOf_day now))) es")
  case None
  with assms show ?thesis
    by (simp add: upsertEntry_def Let_def dayAligned_def newEntry_def startOf_day_mod)
next
  case (Some i)
  from findOne_Some [OF Some] have "i < length es"
    by simp
  with assms have "dayAligned (es ! i)"
    by (simp add: list_all_length)
  then have "dayAligned (updateEntry body (es ! i))"
    by (simp add: dayAligned_def updateEntry_def)
  with assms Some show ?thesis
    by (auto simp: upsertEntry_def Let_def list_all_iff dest!: subsetD [OF set_update_subset_insert])
qed

lemma logHabitEntry_aligned:
  assumes "logHabitEntry d now uid hid body = Inr (d', e)" and "list_all dayAligned (entries d)"
  shows "list_all dayAligned (entries d')"
  using logHabitEntry_InrD [OF assms(1)] upsertEntry_aligned [OF assms(2)] by auto

lemma completion_counts_every_request:
  assumes "logHabitEntry d now uid hid body = Inr (d', e)" and "truthy (b_completed body)"
  shows "\<exists>s s'. statsOf d uid hid = Some s \<and> statsOf d' uid hid = Some s' \<and>
           totalCompletions s' = totalCompletions s + 1"
  using logHabitEntry_stats [OF assms(1)] assms(2) by (auto simp: updateStats_totalCompletions)

lemma falsy_completed_leaves_habits:
  assumes "logHabitEntry d now uid hid body = Inr (d', e)" and "\<not> truthy (b_completed body)"
  shows "habits d' = habits d \<and> statsOf d' uid hid = statsOf d uid hid \<and> statsOf d uid hid \<noteq> None"
proof -
  from logHabitEntry_InrD [OF assms(1)] assms(2) have "habits d' = habits d"
    by auto
  moreover from logHabitEntry_stats [OF assms(1)] assms(2)
  have "statsOf d' uid hid = statsOf d uid hid \<and> statsOf d uid hid \<noteq> None"
    by auto
  ultimately show ?thesis by simp
qed

lemma demo_step1: "logHabitEntry demo_db jan2 1 1 demo_body = Inr (demo_db1, demo_entry)"
  by code_simp


section \<open>The habit statistics\<close>

text \<open>
  Claim C1. Marking a habit complete twice on the same day must leave \<open>totalCompletions\<close>
  and \<open>currentStreak\<close> as they were after the first request. The route does not do so:
  every request with a truthy \<open>completed\<close> runs the statistics update (lemma
  \<open>completion_counts_every_request\<close>). Here the habit was completed on 2024-01-02; two
  requests on 2024-01-03 take the count from 2 to 3 and the streak from 2 to 3, on the
  second day of the habit's life.
\<close>

theorem double_completion_same_day:
  "startOf_day (jan3 + 1000) = startOf_day jan3 \<and>
   map_option totalCompletions (statsAfter demo_db1 1 1 [(jan3, demo_body)]) = Some 2 \<and>
   map_option totalCompletions
     (statsAfter demo_db1 1 1 [(jan3, demo_body), (jan3 + 1000, demo_body)]) = Some 3 \<and>
   map_option currentStreak (statsAfter demo_db1 1 1 [(jan3, demo_body)]) = Some 2 \<and>
   map_option currentStreak
     (statsAfter demo_db1 1 1 [(jan3, demo_body), (jan3 + 1000, demo_body)]) = Some 3"
  by code_simp



text \<open>
  Claim C7. After any completion event (a successful request that runs the statistics
  update: its \<open>completed\<close> is truthy, as \<open>true\<close> is) the habit's statistics satisfy
  \<open>longestStreak \<ge> currentStreak\<close>.
\<close>

theorem longestStreak_ge_currentStreak:
  assumes "logHabitEntry d now uid hid body = Inr (d', e)" and "truthy (b_completed body)"
  shows "\<exists>s'. statsOf d' uid hid = Some s' \<and> currentStreak s' \<le> longestStreak s'"
  using logHabitEntry_stats [OF assms(1)] assms(2) by (auto simp: updateStats_longest)

theorem longestStreak_ge_currentStreak_witness:
  "logHabitEntry demo_db jan2 1 1 demo_body = Inr (demo_db1, demo_entry) \<and>
   truthy (b_completed demo_body) \<and>
   (\<exists>s'. statsOf demo_db1 1 1 = Some s' \<and> currentStreak s' \<le> longestStreak s')"
proof -
  have c: "truthy (b_completed demo_body)"
    by (simp add: demo_body_def truthy_def)
  from longestStreak_ge_currentStreak [OF demo_step1 c] demo_step1 c show ?thesis
    by simp
qed

text \<open>
  Claim C10. A request whose body has \<open>completed\<close> false must leave every field of the
  habit's statistics unchanged. The route keeps this for a body whose \<open>completed\<close> is
  falsy (lemma \<open>falsy_completed_leaves_habits\<close>), but the string \<open>false\<close> passes
  \<open>isBoolean()\<close>, is stored as \<open>completed = false\<close>, and is truthy in the test of line
  176. Here the habit was completed once on 2024-01-02; the uncheck request of the same
  day, sent with the string, stores the entry as not completed, takes \<open>totalCompletions\<close>
  from 1 to 2 and overwrites \<open>lastCompleted\<close>.
\<close>

theorem string_false_runs_stats_update:
  "validEntryBody demo_uncheck_string \<and>
   castBoolean (b_completed demo_uncheck_string) = False \<and>
   map_option e_completed
     (case logHabitEntry demo_db1 (jan2 + 1000) 1 1 demo_uncheck_string of
        Inl err \<Rightarrow> None | Inr (d, e) \<Rightarrow> Some e) = Some False \<and>
   map_option totalCompletions (statsOf demo_db1 1 1) = Some 1 \<and>
   map_option totalCompletions
     (statsAfter demo_db1 1 1 [(jan2 + 1000, demo_uncheck_string)]) = Some 2 \<and>
   map_option lastCompleted (statsOf demo_db1 1 1) = Some (Some jan2) \<and>
   map_option lastCompleted
     (statsAfter demo_db1 1 1 [(jan2 + 1000, demo_uncheck_string)]) = Some (Some (jan2 + 1000))"
  by code_simp

section \<open>Facts about the goal progress route\<close>

lemma toDouble_exact: "\<bar>n\<bar> < 2 ^ 53 \<Longrightarrow> toDouble n = n"
  by (simp add: toDouble_def)

lemma applyProgress_SomeD:
  assumes "applyProgress g now b = Some g'"
  shows "addValue (currentValue g) (pb_value b) = Some (currentValue g')"
    and "targetValue g' = targetValue g"
    and "g_id g' = g_id g" and "g_user g' = g_user g" and "g_type g' = g_type g"
    and "status g' =
           (if reaches (currentValue g') (targetValue g) \<and> status g = Active
            then Completed else status g)"
    and "milestones g' = checkMilestones (currentValue g') now (milestones g)"
  using assms
  by (auto simp: applyProgress_def Let_def split: option.splits if_splits)

lemma addGoalProgress_InrD:
  assumes "addGoalProgress gs now uid gid body = Inr (gs', g')"
    and "findOne (\<lambda>g. g_id g = gid \<and> g_user g = uid) gs = Some k"
  shows "applyProgress (gs ! k) now body = Some g'" and "gs' = gs[k := g']" and "gs' ! k = g'"
    and "validProgressBody body" and "saveValid g'"
proof -
  from findOne_Some [OF assms(2)] have k: "k < length gs"
    by simp
  from assms show "applyProgress (gs ! k) now body = Some g'" and g: "gs' = gs[k := g']"
    and "validProgressBody body" and "saveValid g'"
    by (auto simp: addGoalProgress_def split: if_splits option.splits)
  from k g show "gs' ! k = g'"
    by simp
qed

text \<open>
  A body whose value is a number, within the range where a double holds every integer:
  the handler adds it.
\<close>

lemma applyProgress_number:
  assumes "pb_value b = JNum v" and "0 \<le> toDouble v" and "0 \<le> currentValue g"
    and "currentValue g + toDouble v < 2 ^ 53"
  shows "\<exists>g'. applyProgress g now b = Some g' \<and>
           currentValue g' = currentValue g + toDouble v"
  using assms by (simp add: applyProgress_def numberOf_def addValue_def Let_def toDouble_exact)

lemma addGoalProgress_number:
  assumes "validProgressBody body" and "pb_value body = JNum v"
    and "findOne (\<lambda>g. g_id g = gid \<and> g_user g = uid) gs = Some k"
    and "targetValue (gs ! k) = Some t" and "0 \<le> currentValue (gs ! k)"
    and "currentValue (gs ! k) + toDouble v < 2 ^ 53"
  shows "\<exists>g'. addGoalProgress gs now uid gid body = Inr (gs[k := g'], g') \<and>
           findOne (\<lambda>g. g_id g = gid \<and> g_user g = uid) (gs[k := g']) = Some k \<and>
           gs[k := g'] ! k = g' \<and>
           currentValue g' = currentValue (gs ! k) + toDouble v \<and> 0 \<le> toDouble v \<and>
           targetValue g' = Some t \<and>
           status g' =
             (if t \<le> currentValue g' \<and> status (gs ! k) = Active then Completed
              else status (gs ! k))"
proof -
  from findOne_Some [OF assms(3)] have k: "k < length gs" "g_id (gs ! k) = gid" "g_user (gs ! k) = uid"
    by simp_all
  from assms(1,2) have v: "0 \<le> toDouble v"
    by (simp add: validProgressBody_def isInt_min0_def)
  from applyProgress_number [OF assms(2) v assms(5,6), of now] obtain g' where
    g': "applyProgress (gs ! k) now body = Some g'"
      "currentValue g' = currentValue (gs ! k) + toDouble v"
    by blast
  note f = applyProgress_SomeD [OF g'(1)]
  have sv: "saveValid g'"
    using v assms(4,5) by (simp add: saveValid_def f(2) g'(2))
  have "findOne (\<lambda>g. g_id g = gid \<and> g_user g = uid) (gs[k := g']) = Some k"
    using k by (intro findOne_update_same [OF assms(3)]) (simp add: f)
  moreover have "addGoalProgress gs now uid gid body = Inr (gs[k := g'], g')"
    using assms(1,3) g'(1) sv by (simp add: addGoalProgress_def)
  ultimately show ?thesis
    using k v assms(4) g'(2) by (auto simp: f reaches_def)
qed

lemma deltas_Cons_number:
  "pb_value body = JNum v \<Longrightarrow> deltas ((now, body) # rs) = toDouble v # deltas rs"
  by (simp add: deltas_def numberOf_def)

lemma deltas_nonneg:
  "list_all (\<lambda>r. validProgressBody (snd r)) rs \<Longrightarrow> 0 \<le> sum_list (deltas rs)"
proof (induction rs)
  case Nil
  then show ?case by (simp add: deltas_def)
next
  case (Cons r rs)
  from Cons.prems have "isInt_min0 (pb_value (snd r))"
    by (simp add: validProgressBody_def)
  then have "0 \<le> (case numberOf (pb_value (snd r)) of None \<Rightarrow> 0 | Some v \<Rightarrow> v)"
    by (auto simp: isInt_min0_def numberOf_def split: json.splits option.splits)
  with Cons show ?case
    by (simp add: deltas_def)
qed

text \<open>
  The sequence of the claim on number bodies below \<open>2^53\<close>: with the invariant that the
  status says whether the target is reached, the handler keeps the sum and the status.
\<close>

lemma number_sequence_invariant:
  assumes "findOne (\<lambda>g. g_id g = gid \<and> g_user g = uid) gs = Some k"
    and "list_all (\<lambda>r. validProgressBody (snd r) \<and> (\<exists>v. pb_value (snd r) = JNum v)) rs"
    and "targetValue (gs ! k) = Some t" and "0 \<le> currentValue (gs ! k)"
    and "currentValue (gs ! k) + sum_list (deltas rs) < 2 ^ 53"
    and "status (gs ! k) = (if t \<le> currentValue (gs ! k) then Completed else Active)"
  shows "\<exists>gs'. addProgressSeq gs uid gid rs = Inr gs' \<and>
           findOne (\<lambda>g. g_id g = gid \<and> g_user g = uid) gs' = Some k \<and>
           currentValue (gs' ! k) = currentValue (gs ! k) + sum_list (deltas rs) \<and>
           status (gs' ! k) =
             (if t \<le> currentValue (gs ! k) + sum_list (deltas rs) then Completed else Active)"
  using assms
proof (induction rs arbitrary: gs)
  case Nil
  then show ?case by (simp add: deltas_def)
next
  case (Cons r rs)
  obtain now body where r: "r = (now, body)"
    by (cases r)
  from Cons.prems(2) r obtain v where v: "validProgressBody body" "pb_value body = JNum v"
    and vs: "list_all (\<lambda>r. validProgressBody (snd r) \<and> (\<exists>v. pb_value (snd r) = JNum v)) rs"
    by auto
  from vs have "list_all (\<lambda>r. validProgressBody (snd r)) rs"
    by (simp add: list_all_iff)
  then have rest: "0 \<le> sum_list (deltas rs)"
    by (rule deltas_nonneg)
  note d' = deltas_Cons_number [OF v(2), of now]
  have d: "deltas (r # rs) = toDouble v # deltas rs"
    by (simp add: r d')
  from Cons.prems(5) rest have b: "currentValue (gs ! k) + toDouble v < 2 ^ 53"
    by (simp add: d)
  from addGoalProgress_number [OF v Cons.prems(1,3,4) b, of now] obtain g' where g':
    "addGoalProgress gs now uid gid body = Inr (gs[k := g'], g')"
    "findOne (\<lambda>g. g_id g = gid \<and> g_user g = uid) (gs[k := g']) = Some k"
    "gs[k := g'] ! k = g'"
    "currentValue g' = currentValue (gs ! k) + toDouble v" "0 \<le> toDouble v"
    "targetValue g' = Some t"
    "status g' = (if t \<le> currentValue g' \<and> status (gs ! k) = Active then Completed
                  else status (gs ! k))"
    by blast
  have i: "status (gs[k := g'] ! k) =
      (if t \<le> currentValue (gs[k := g'] ! k) then Completed else Active)"
    using Cons.prems(6) g'(4,5) by (simp add: g'(3) g'(7))
  have c: "0 \<le> currentValue (gs[k := g'] ! k)"
    using Cons.prems(4) g'(4,5) by (simp add: g'(3))
  have b': "currentValue (gs[k := g'] ! k) + sum_list (deltas rs) < 2 ^ 53"
    using Cons.prems(5) by (simp add: g'(3,4) d)
  have t: "targetValue (gs[k := g'] ! k) = Some t"
    by (simp add: g'(3,6))
  from Cons.IH [OF g'(2) vs t c b' i] obtain gs' where
    "addProgressSeq (gs[k := g']) uid gid rs = Inr gs'"
    "findOne (\<lambda>g. g_id g = gid \<and> g_user g = uid) gs' = Some k"
    "currentValue (gs' ! k) = currentValue (gs[k := g'] ! k) + sum_list (deltas rs)"
    "status (gs' ! k) =
       (if t \<le> currentValue (gs[k := g'] ! k) + sum_list (deltas rs) then Completed else Active)"
    by blast
  then show ?case
    by (simp add: r g'(1) g'(3) g'(4) d' add.assoc)
qed

lemma number_sequence_from_active:
  assumes "findOne (\<lambda>g. g_id g = gid \<and> g_user g = uid) gs = Some k"
    and "list_all (\<lambda>r. validProgressBody (snd r) \<and> (\<exists>v. pb_value (snd r) = JNum v)) rs"
    and "targetValue (gs ! k) = Some t"
    and "status (gs ! k) = Active" and "currentValue (gs ! k) = 0"
    and "sum_list (deltas rs) < 2 ^ 53"
  shows "\<exists>g. goalAfter gs uid gid rs = Some g \<and>
           currentValue g = sum_list (deltas rs) \<and>
           status g = (if rs \<noteq> [] \<and> t \<le> sum_list (deltas rs) then Completed else Active)"
proof (cases rs)
  case Nil
  with assms show ?thesis
    by (simp add: goalAfter_def deltas_def)
next
  case (Cons r rs')
  obtain now body where r: "r = (now, body)"
    by (cases r)
  from assms(2) Cons r obtain v where v: "validProgressBody body" "pb_value body = JNum v"
    and vs: "list_all (\<lambda>r. validProgressBody (snd r) \<and> (\<exists>v. pb_value (snd r) = JNum v)) rs'"
    by auto
  from vs have "list_all (\<lambda>r. validProgressBody (snd r)) rs'"
    by (simp add: list_all_iff)
  then have rest: "0 \<le> sum_list (deltas rs')"
    by (rule deltas_nonneg)
  note d' = deltas_Cons_number [OF v(2), of now]
  have d: "deltas rs = toDouble v # deltas rs'"
    by (simp add: Cons r d')
  from assms(5,6) rest have b: "currentValue (gs ! k) + toDouble v < 2 ^ 53"
    and c0: "0 \<le> currentValue (gs ! k)"
    by (simp_all add: d)
  from addGoalProgress_number [OF v assms(1,3) c0 b, of now] obtain g' where g':
    "addGoalProgress gs now uid gid body = Inr (gs[k := g'], g')"
    "findOne (\<lambda>g. g_id g = gid \<and> g_user g = uid) (gs[k := g']) = Some k"
    "gs[k := g'] ! k = g'"
    "currentValue g' = currentValue (gs ! k) + toDouble v" "0 \<le> toDouble v"
    "targetValue g' = Some t"
    "status g' = (if t \<le> currentValue g' \<and> status (gs ! k) = Active then Completed
                  else status (gs ! k))"
    by blast
  have i: "status (gs[k := g'] ! k) =
      (if t \<le> currentValue (gs[k := g'] ! k) then Completed else Active)"
    using assms(4) by (simp add: g'(3) g'(7))
  have c: "0 \<le> currentValue (gs[k := g'] ! k)"
    using assms(5) g'(4,5) by (simp add: g'(3))
  have b': "currentValue (gs[k := g'] ! k) + sum_list (deltas rs') < 2 ^ 53"
    using assms(5,6) by (simp add: g'(3,4) d)
  have t: "targetValue (gs[k := g'] ! k) = Some t"
    by (simp add: g'(3,6))
  from number_sequence_invariant [OF g'(2) vs t c b' i] obtain gs' where
    "addProgressSeq (gs[k := g']) uid gid rs' = Inr gs'"
    "findOne (\<lambda>g. g_id g = gid \<and> g_user g = uid) gs' = Some k"
    "currentValue (gs' ! k) = currentValue (gs[k := g'] ! k) + sum_list (deltas rs')"
    "status (gs' ! k) =
       (if t \<le> currentValue (gs[k := g'] ! k) + sum_list (deltas rs') then Completed else Active)"
    by blast
  then show ?thesis
    using assms(5) by (simp add: goalAfter_def Cons r g'(1) g'(3) g'(4) d')
qed

lemma checkMilestones_map: "checkMilestones cv now ms = map (checkMilestone cv now) ms"
  by (induction ms) simp_all

lemma checkMilestone_idem:
  "checkMilestone cv now (checkMilestone cv now m) = checkMilestone cv now m"
  by (simp add: checkMilestone_def)

lemma checkInOrder_nth:
  assumes "\<forall>i \<in> set order. i < length ms"
  shows "length (checkInOrder cv now order ms) = length ms \<and>
         (\<forall>j < length ms. checkInOrder cv now order ms ! j =
            (if j \<in> set order then checkMilestone cv now (ms ! j) else ms ! j))"
  using assms
proof (induction order rule: rev_induct)
  case Nil
  then show ?case by (simp add: checkInOrder_def)
next
  case (snoc i order)
  let ?acc = "checkInOrder cv now order ms"
  from snoc have len: "length ?acc = length ms"
    and nth: "\<And>j. j < length ms \<Longrightarrow>
      ?acc ! j = (if j \<in> set order then checkMilestone cv now (ms ! j) else ms ! j)"
    and i: "i < length ms"
    by simp_all
  have unfold: "checkInOrder cv now (order @ [i]) ms = ?acc[i := checkMilestone cv now (?acc ! i)]"
    by (simp add: checkInOrder_def)
  have same: "checkMilestone cv now (?acc ! i) = checkMilestone cv now (ms ! i)"
    using nth [OF i] by (simp add: checkMilestone_idem)
  have "checkInOrder cv now (order @ [i]) ms ! j =
          (if j \<in> set (order @ [i]) then checkMilestone cv now (ms ! j) else ms ! j)"
    if j: "j < length ms" for j
  proof (cases "j = i")
    case True
    with same len i show ?thesis
      by (simp add: unfold)
  next
    case False
    with nth [OF j] len show ?thesis
      by (simp add: unfold)
  qed
  then show ?case
    using len by (simp add: unfold)
qed

lemma checkInOrder_any_order:
  assumes "set order = {..<length ms}"
  shows "checkInOrder cv now order ms = checkMilestones cv now ms"
proof -
  from assms have "\<forall>i \<in> set order. i < length ms"
    by simp
  from checkInOrder_nth [OF this, of cv now] assms show ?thesis
    by (intro nth_equalityI) (simp_all add: checkMilestones_map)
qed

lemma Math_round_eq: "Math_round x = round x"
  by (simp add: Math_round_def round_def)

section \<open>Goal progress, milestones and the progress percentage\<close>

text \<open>
  Claim C3. For a goal that starts at \<open>currentValue\<close> 0 and receives valid progress
  requests, \<open>currentValue\<close> must be the sum of the values and the status must turn to
  \<open>completed\<close> at the first request whose sum reaches the target. The route keeps this
  for values sent as numbers while the sum stays below \<open>2^53\<close> (lemma
  \<open>number_sequence_from_active\<close>). It does not for a value sent as a string, which
  \<open>isInt()\<close> accepts and line 152 appends to the digits of \<open>currentValue\<close>: on the goal
  with target 12 the values 3, 3 and 6 give 3, 33 and 336, and the goal is completed after
  the second request, when the sum is 6. Nor does it beyond \<open>2^53\<close>: after the number
  \<open>2^53\<close> the number 1 leaves \<open>currentValue\<close> at \<open>2^53\<close>.
\<close>

theorem string_values_concatenate:
  "list_all (\<lambda>r. validProgressBody (snd r)) demo_string_reqs \<and>
   deltas demo_string_reqs = [3, 3, 6] \<and>
   map (\<lambda>n. map_option (\<lambda>g. (currentValue g, status g))
               (goalAfter [demo_goal] 1 7 (take n demo_string_reqs))) [1, 2, 3] =
     [Some (3, Active), Some (33, Completed), Some (336, Completed)] \<and>
   map_option currentValue
     (goalAfter [demo_goal\<lparr>targetValue := Some (2 ^ 60)\<rparr>] 1 7
        [(1704196800000, \<lparr>pb_value = JNum (2 ^ 53), pb_notes = None\<rparr>),
         (1704283200000, \<lparr>pb_value = JNum 1, pb_notes = None\<rparr>)]) = Some (2 ^ 53)"
  by code_simp

text \<open>
  Claim C4. One successful progress request, with \<open>cv\<close> the updated \<open>currentValue\<close> (the
  old value plus the number sent, for a number in the range of exact doubles): every
  milestone that is not completed and whose target is at most \<open>cv\<close> becomes completed with
  \<open>completedAt\<close> the time of the request, every other milestone (the completed ones among
  them) stays as it is, all in this one call; and visiting the milestones in any order
  that reaches each position gives the same list.
\<close>

theorem milestones_flip_in_one_call:
  assumes "addGoalProgress gs now uid gid body = Inr (gs', g')"
    and "findOne (\<lambda>g. g_id g = gid \<and> g_user g = uid) gs = Some k"
    and "cv = currentValue g'" and "ms = milestones (gs ! k)"
  shows "gs' ! k = g' \<and> addValue (currentValue (gs ! k)) (pb_value body) = Some cv \<and>
         (\<forall>v. pb_value body = JNum v \<and> \<bar>v\<bar> < 2 ^ 53 \<and> \<bar>currentValue (gs ! k) + v\<bar> < 2 ^ 53 \<longrightarrow>
            cv = currentValue (gs ! k) + v) \<and>
         length (milestones g') = length ms \<and>
         (\<forall>i < length ms. milestones g' ! i =
            (if \<not> ms_completed (ms ! i) \<and> ms_targetValue (ms ! i) \<le> cv
             then (ms ! i)\<lparr>ms_completed := True, ms_completedAt := Some now\<rparr>
             else ms ! i)) \<and>
         (\<forall>order. set order = {..<length ms} \<longrightarrow> checkInOrder cv now order ms = milestones g')"
proof -
  note d = addGoalProgress_InrD [OF assms(1,2)]
  note f = applyProgress_SomeD [OF d(1)]
  have a: "addValue (currentValue (gs ! k)) (pb_value body) = Some cv"
    by (simp add: f(1) assms(3))
  have n: "cv = currentValue (gs ! k) + v"
    if "pb_value body = JNum v" "\<bar>v\<bar> < 2 ^ 53" "\<bar>currentValue (gs ! k) + v\<bar> < 2 ^ 53" for v
    using a that by (simp add: addValue_def toDouble_exact)
  have m: "milestones g' = map (checkMilestone cv now) ms"
    by (simp add: f(7) assms(3,4) checkMilestones_map)
  have "checkInOrder cv now order ms = milestones g'" if "set order = {..<length ms}" for order
    using checkInOrder_any_order [OF that] by (simp add: m checkMilestones_map)
  with a n d(3) show ?thesis
    by (simp add: m checkMilestone_def)
qed

theorem milestones_flip_in_one_call_witness:
  "addGoalProgress [demo_goal\<lparr>currentValue := 3\<rparr>] 1704283200000 1 7 \<lparr>pb_value = JNum 9, pb_notes = None\<rparr> =
     Inr ([demo_goal\<lparr>currentValue := 12, status := Completed,
             milestones := map (\<lambda>m. m\<lparr>ms_completed := True, ms_completedAt := Some 1704283200000\<rparr>)
                             (milestones demo_goal),
             progress := [\<lparr>p_value = 9, p_notes = None, p_date = 1704283200000\<rparr>]\<rparr>],
          demo_goal\<lparr>currentValue := 12, status := Completed,
             milestones := map (\<lambda>m. m\<lparr>ms_completed := True, ms_completedAt := Some 1704283200000\<rparr>)
                             (milestones demo_goal),
             progress := [\<lparr>p_value = 9, p_notes = None, p_date = 1704283200000\<rparr>]\<rparr>) \<and>
   findOne (\<lambda>g. g_id g = 7 \<and> g_user g = 1) [demo_goal\<lparr>currentValue := 3\<rparr>] = Some 0 \<and>
   addValue 3 (JNum 9) = Some 12 \<and>
   checkInOrder 12 1704283200000 [1, 0] (milestones demo_goal) =
     map (\<lambda>m. m\<lparr>ms_completed := True, ms_completedAt := Some 1704283200000\<rparr>) (milestones demo_goal)"
proof -
  let ?g' = "demo_goal\<lparr>currentValue := 12, status := Completed,
             milestones := map (\<lambda>m. m\<lparr>ms_completed := True, ms_completedAt := Some 1704283200000\<rparr>)
                             (milestones demo_goal),
             progress := [\<lparr>p_value = 9, p_notes = None, p_date = 1704283200000\<rparr>]\<rparr>"
  have h1: "addGoalProgress [demo_goal\<lparr>currentValue := 3\<rparr>] 1704283200000 1 7
              \<lparr>pb_value = JNum 9, pb_notes = None\<rparr> = Inr ([?g'], ?g')"
    by code_simp
  have h2: "findOne (\<lambda>g. g_id g = 7 \<and> g_user g = 1) [demo_goal\<lparr>currentValue := 3\<rparr>] = Some 0"
    by (simp add: demo_goal_def)
  have h3: "(12::int) = currentValue ?g'"
    by simp
  have h4: "milestones demo_goal = milestones ([demo_goal\<lparr>currentValue := 3\<rparr>] ! 0)"
    by simp
  have o: "set [1, 0::nat] = {..<length (milestones demo_goal)}"
    by (auto simp: demo_goal_def)
  note T = milestones_flip_in_one_call [OF h1 h2 h3 h4]
  from T o have "checkInOrder 12 1704283200000 [1, 0] (milestones demo_goal) = milestones ?g'"
    by blast
  moreover from T have "addValue 3 (JNum 9) = Some 12"
    by simp
  ultimately show ?thesis
    using h1 h2 by simp
qed

text \<open>
  Claim C5. The derived \<open>progressPercentage\<close> is \<open>min(round(currentValue / targetValue * 100), 100)\<close>
  for a positive target, computed in doubles (the rounding \<open>fl\<close> of the quotient and of the
  product), and 0 when the target is 0 or absent. For a current value that is not negative
  and a positive target it lies between 0 and 100, whatever the rounding, as long as the
  rounding of a number that is not negative is not negative.
\<close>

theorem progressPercentage_formula:
  "progressPercentage fl g =
     (case targetValue g of
        None \<Rightarrow> 0
      | Some t \<Rightarrow>
          if 0 < t
          then min (round (fl (fl (of_int (currentValue g) / of_int t) * 100))) 100
          else 0) \<and>
   ((\<forall>x. 0 \<le> x \<longrightarrow> 0 \<le> fl x) \<and> 0 \<le> currentValue g \<and> (\<exists>t. targetValue g = Some t \<and> 0 < t) \<longrightarrow>
      0 \<le> progressPercentage fl g \<and> progressPercentage fl g \<le> 100) \<and>
   (targetValue g = None \<or> targetValue g = Some 0 \<longrightarrow> progressPercentage fl g = 0)"
proof -
  have "0 \<le> progressPercentage fl g"
    if fl: "\<And>x. 0 \<le> x \<Longrightarrow> 0 \<le> fl x" and c: "0 \<le> currentValue g"
      and t: "targetValue g = Some t" "0 < t" for t
  proof -
    from c t have "0 \<le> fl (of_int (currentValue g) / of_int t)"
      by (intro fl) simp
    then have "0 \<le> fl (fl (of_int (currentValue g) / of_int t) * 100)"
      by (intro fl) simp
    then have "0 \<le> Math_round (fl (fl (of_int (currentValue g) / of_int t) * 100))"
      by (simp add: Math_round_def)
    with t show ?thesis
      by (simp add: progressPercentage_def)
  qed
  moreover have "progressPercentage fl g \<le> 100"
    by (simp add: progressPercentage_def split: option.splits)
  ultimately show ?thesis
    by (auto simp: progressPercentage_def Math_round_eq split: option.splits)
qed

theorem progressPercentage_formula_witness:
  "progressPercentage (\<lambda>x. x) (demo_goal\<lparr>currentValue := 6\<rparr>) = 50 \<and>
   0 \<le> currentValue (demo_goal\<lparr>currentValue := 6\<rparr>) \<and>
   targetValue (demo_goal\<lparr>currentValue := 6\<rparr>) = Some 12 \<and>
   0 \<le> progressPercentage (\<lambda>x. x) (demo_goal\<lparr>currentValue := 6\<rparr>) \<and>
   progressPercentage (\<lambda>x. x) (demo_goal\<lparr>currentValue := 6\<rparr>) \<le> 100 \<and>
   targetValue (demo_goal\<lparr>targetValue := Some 0\<rparr>) = Some 0 \<and>
   progressPercentage (\<lambda>x. x) (demo_goal\<lparr>targetValue := Some 0\<rparr>) = 0"
proof -
  note T = progressPercentage_formula [of "\<lambda>x. x" "demo_goal\<lparr>currentValue := 6\<rparr>"]
  note Z = progressPercentage_formula [of "\<lambda>x. x" "demo_goal\<lparr>targetValue := Some 0\<rparr>"]
  have t: "targetValue (demo_goal\<lparr>currentValue := 6\<rparr>) = Some 12"
    by (simp add: demo_goal_def)
  have "round ((of_int 6 / of_int 12 :: rat) * 100) = 50"
    by code_simp
  with T t have "progressPercentage (\<lambda>x. x) (demo_goal\<lparr>currentValue := 6\<rparr>) = 50"
    by simp
  moreover from Z have "progressPercentage (\<lambda>x. x) (demo_goal\<lparr>targetValue := Some 0\<rparr>) = 0"
    by simp
  ultimately show ?thesis
    using t by simp
qed

section \<open>Facts about the daily upsert\<close>

lemma startOf_day_subtract_days: "startOf_day (subtract_days t n) = startOf_day t - n * DAY_MS"
proof -
  have "(t - n * DAY_MS) mod DAY_MS = t mod DAY_MS"
    by (metis mod_mult_self1 diff_add_cancel)
  then show ?thesis
    by (simp add: startOf_day_def subtract_days_def)
qed
















section \<open>The daily upsert\<close>



section \<open>Summary statistics: the window and empty collections\<close>

text \<open>
  Claim C8. The statistics routes of habits and moods start their window at the start of
  the day that lies 30 days before now for the period \<open>month\<close>, 365 days for \<open>year\<close>, and
  7 days for \<open>week\<close>, for any other value and for an absent parameter.
\<close>

theorem period_window:
  "periodStartDate q now =
     startOf_day now -
       (if q = Some ''month'' then 30 else if q = Some ''year'' then 365 else 7) * DAY_MS"
  by (simp add: periodStartDate_def Let_def startOf_day_subtract_days split: option.splits)



end
